theory Spec2Isabelle
  imports Complex_Main
begin

unbundle bit_operations_syntax

section \<open>The M5Stack flash samples\<close>

text \<open>
  The repository holds two MicroPython scripts, \<^verbatim>\<open>examples/flash-sample.py\<close> (the
  extended variant) and \<^verbatim>\<open>examples/flash-sample-simple.py\<close> (the simple variant).
  Both create a few text labels and then run \<^verbatim>\<open>while True\<close>: draw a random
  background colour, bump a counter, update the labels, sleep.

  Python integers are unbounded, so the counter and the tick difference are \<^typ>\<open>int\<close>.
  Colour values come from \<^verbatim>\<open>urandom.getrandbits\<close>, which returns an unsigned
  integer, and are only shifted and or-ed: they are \<^typ>\<open>nat\<close>.
  Sleep durations are kept in milliseconds (\<^verbatim>\<open>time.sleep(0.1)\<close> is \<open>100\<close>).
\<close>

subsection \<open>Python string formatting\<close>

definition digit_char :: "nat \<Rightarrow> char" where
  "digit_char d = ''0123456789ABCDEF'' ! d"

text \<open>The decimal digits of a natural number, most significant first.\<close>

fun dec_digits :: "nat \<Rightarrow> string" where
  "dec_digits n =
     (if n < 10 then [digit_char n] else dec_digits (n div 10) @ [digit_char (n mod 10)])"

declare dec_digits.simps [simp del]

text \<open>The upper-case hexadecimal digits, as the presentation type \<^verbatim>\<open>X\<close> prints them.\<close>

fun hex_digits :: "nat \<Rightarrow> string" where
  "hex_digits n =
     (if n < 16 then [digit_char n] else hex_digits (n div 16) @ [digit_char (n mod 16)])"

declare hex_digits.simps [simp del]

text \<open>Zero padding on the left up to a minimum width; longer digit strings are kept whole.\<close>

definition zfill :: "nat \<Rightarrow> string \<Rightarrow> string" where
  "zfill w ds = replicate (w - length ds) (CHR ''0'') @ ds"

text \<open>\<^verbatim>\<open>str(n)\<close> and \<^verbatim>\<open>f"{n}"\<close> for an integer.\<close>

definition py_str_int :: "int \<Rightarrow> string" where
  "py_str_int n = (if n < 0 then CHR ''-'' # dec_digits (nat (- n)) else dec_digits (nat n))"

text \<open>
  \<^verbatim>\<open>f"{n:02d}"\<close>: the zero flag pads after the sign, and the sign counts towards the
  width of two.
\<close>

definition fmt_02d :: "int \<Rightarrow> string" where
  "fmt_02d n =
     (if n < 0 then CHR ''-'' # zfill 1 (dec_digits (nat (- n))) else zfill 2 (dec_digits (nat n)))"

text \<open>\<^verbatim>\<open>f"{c:06X}"\<close> for a non-negative colour value.\<close>

definition fmt_06X :: "nat \<Rightarrow> string" where
  "fmt_06X c = zfill 6 (hex_digits c)"

subsection \<open>The pure computations of the extended variant\<close>

text \<open>
  \<^verbatim>\<open>random_color\<close>, lines 15--20. The three arguments are the values returned by
  \<^verbatim>\<open>urandom.getrandbits(5)\<close>, \<^verbatim>\<open>urandom.getrandbits(6)\<close> and
  \<^verbatim>\<open>urandom.getrandbits(5)\<close>, in the order of the calls.
\<close>

definition random_color :: "nat \<Rightarrow> nat \<Rightarrow> nat \<Rightarrow> nat" where
  "random_color r5 g6 b5 =
     (let r = push_bit 11 r5;
          g = push_bit 5 g6;
          b = b5
      in (r OR g) OR b)"

text \<open>Line 65: \<^verbatim>\<open>f"Count: {count}"\<close>.\<close>

definition counter_text :: "int \<Rightarrow> string" where
  "counter_text c = ''Count: '' @ py_str_int c"

text \<open>
  Lines 69--71, from the elapsed whole seconds: \<^verbatim>\<open>minutes = elapsed // 60\<close>,
  \<^verbatim>\<open>seconds = elapsed % 60\<close>, and the part of the f-string after \<^verbatim>\<open>Time: \<close>.
  Python's \<^verbatim>\<open>//\<close> and \<^verbatim>\<open>%\<close> round towards minus infinity, as \<open>div\<close> and
  \<open>mod\<close> on \<^typ>\<open>int\<close> do.
\<close>

definition mmss :: "int \<Rightarrow> string" where
  "mmss elapsed =
     (let minutes = elapsed div 60;
          seconds = elapsed mod 60
      in fmt_02d minutes @ '':'' @ fmt_02d seconds)"

definition time_text :: "int \<Rightarrow> string" where
  "time_text elapsed = ''Time: '' @ mmss elapsed"

text \<open>Line 74: \<^verbatim>\<open>f"RGB: 0x{bg_color:06X}"\<close>.\<close>

definition color_text :: "nat \<Rightarrow> string" where
  "color_text bg_color = ''RGB: 0x'' @ fmt_06X bg_color"

text \<open>
  \<^verbatim>\<open>int(x)\<close> on a float truncates towards zero.
\<close>

definition py_int_of_float :: "real \<Rightarrow> int" where
  "py_int_of_float x = (if 0 \<le> x then \<lfloor>x\<rfloor> else \<lceil>x\<rceil>)"

text \<open>
  Python's \<^verbatim>\<open>round(x)\<close> on a float, and the rounding of a float operation: to the
  nearest integer, a tie to the even one.
\<close>

definition round_half_even :: "real \<Rightarrow> int" where
  "round_half_even x =
     (let f = \<lfloor>x\<rfloor>
      in if x - of_int f < 1 / 2 then f
         else if 1 / 2 < x - of_int f then f + 1
         else if even f then f else f + 1)"

text \<open>
  The float arithmetic of the board is not part of the repository (MicroPython builds use
  single or double precision, and \<^verbatim>\<open>math.sin\<close> comes from the firmware's C library),
  so it is a parameter: \<open>fl_round\<close> gives the float that the exact result of a
  conversion, sum or product is rounded to, \<open>fl_sin\<close> is \<^verbatim>\<open>math.sin\<close> on a float, and
  \<open>fl_lit_02\<close> is the float the literal \<^verbatim>\<open>0.2\<close> denotes. Floats are the reals they
  stand for.
\<close>

record float_ops =
  fl_round :: "real \<Rightarrow> real"
  fl_sin :: "real \<Rightarrow> real"
  fl_lit_02 :: real

text \<open>
  Line 78, the float \<^verbatim>\<open>150 * (math.sin(count * 0.2) + 1)\<close>: \<^verbatim>\<open>count\<close> is converted
  to a float and multiplied by \<^verbatim>\<open>0.2\<close>, the sine is taken, \<^verbatim>\<open>1\<close> is added and the
  sum is multiplied by \<^verbatim>\<open>150\<close>, each step rounded; \<open>1\<close> and \<open>150\<close> are floats as they
  are. The counter stays far below the values that no float can hold.
\<close>

definition progress_value :: "float_ops \<Rightarrow> int \<Rightarrow> real" where
  "progress_value ops c =
     fl_round ops (150 * fl_round ops
       (fl_sin ops (fl_round ops (fl_round ops (real_of_int c) * fl_lit_02 ops)) + 1))"

text \<open>Line 78: \<^verbatim>\<open>progress = int(150 * (math.sin(count * 0.2) + 1))\<close>.\<close>

definition progress :: "float_ops \<Rightarrow> int \<Rightarrow> int" where
  "progress ops c = py_int_of_float (progress_value ops c)"


text \<open>Lines 83--88: the text and the colour the status label gets.\<close>

definition blink :: "int \<Rightarrow> string \<times> nat" where
  "blink c =
     (if c mod 4 < 2 then (''Status: ACTIVE'', 0x00FF00) else (''Status: READY'', 0x0088FF))"

text \<open>
  Lines 91--92. The index \<^verbatim>\<open>count % len(title_colors)\<close> is never out of range
  (lemma \<open>title_index_in_range\<close> below), so the subscript cannot raise.
\<close>

definition title_colors :: "nat list" where
  "title_colors = [0xFFFFFF, 0xFF0000, 0x00FF00, 0x0000FF, 0xFFFF00, 0xFF00FF, 0x00FFFF]"

definition title_color :: "int \<Rightarrow> nat" where
  "title_color c = title_colors ! nat (c mod int (length title_colors))"

subsection \<open>The simple variant's colour\<close>

text \<open>
  \<^verbatim>\<open>random_color\<close> of the simple variant, lines 11--13: the value returned by
  \<^verbatim>\<open>urandom.getrandbits(16)\<close>, unchanged.
\<close>

definition random_color_simple :: "nat \<Rightarrow> nat" where
  "random_color_simple r16 = r16"

subsection \<open>Unpacking, as the specification words it\<close>

text \<open>
  The scripts never unpack a colour. This is the specification's "masking and shifting"
  of an RGB565 value, against which \<open>random_color\<close> is compared.
\<close>

definition spec_unpack565 :: "nat \<Rightarrow> nat \<times> nat \<times> nat" where
  "spec_unpack565 v = (drop_bit 11 v AND 0x1F, drop_bit 5 v AND 0x3F, v AND 0x1F)"

subsection \<open>Labels, effects and faults\<close>

text \<open>
  An \<^verbatim>\<open>M5TextBox\<close> of the vendor library: the arguments of its constructor, of which
  \<^verbatim>\<open>setText\<close> and \<^verbatim>\<open>setColor\<close> replace the text and the colour.
\<close>

record textbox =
  tb_x :: int
  tb_y :: int
  tb_text :: string
  tb_font :: string
  tb_color :: nat

text \<open>What the scripts do to the console, the screen and the clock, in order.\<close>

datatype event =
    Print string
  | Clear
  | ScreenColor nat
  | Rect int int int int nat nat
  | Sleep nat

text \<open>
  The exceptions the \<^verbatim>\<open>except\<close> clauses tell apart. \<^verbatim>\<open>KeyboardInterrupt\<close> and
  \<^verbatim>\<open>SystemExit\<close> derive from \<^verbatim>\<open>BaseException\<close> only, so
  \<^verbatim>\<open>except Exception\<close> does not match them; \<open>Exception msg\<close> is any instance of
  \<^verbatim>\<open>Exception\<close>, with the message \<^verbatim>\<open>str(e)\<close> gives.
\<close>

datatype py_exc = KeyboardInterrupt | SystemExit | Exception string

text \<open>
  The state of a running script: its labels (indexed by the variable that holds them),
  the local \<^verbatim>\<open>count\<close> of \<^verbatim>\<open>main\<close>, and the effects so far.
\<close>

record 'l ui =
  labels :: "'l \<Rightarrow> textbox"
  count :: int
  trace :: "event list"

definition setText :: "'l \<Rightarrow> string \<Rightarrow> 'l ui \<Rightarrow> 'l ui" where
  "setText l t s = s\<lparr>labels := (labels s)(l := (labels s l)\<lparr>tb_text := t\<rparr>)\<rparr>"

definition setColor :: "'l \<Rightarrow> nat \<Rightarrow> 'l ui \<Rightarrow> 'l ui" where
  "setColor l c s = s\<lparr>labels := (labels s)(l := (labels s l)\<lparr>tb_color := c\<rparr>)\<rparr>"

definition emit :: "event \<Rightarrow> 'l ui \<Rightarrow> 'l ui" where
  "emit ev s = s\<lparr>trace := trace s @ [ev]\<rparr>"

definition incr_count :: "'l ui \<Rightarrow> 'l ui" where
  "incr_count s = s\<lparr>count := count s + 1\<rparr>"

text \<open>A block of statements, run in order.\<close>

definition run_stmts :: "('s \<Rightarrow> 's) list \<Rightarrow> 's \<Rightarrow> 's" where
  "run_stmts fs s = fold (\<lambda>f. f) fs s"

text \<open>
  A block under fault injection. Every statement of the scripts calls into the firmware
  (or can be hit by Ctrl-C), so the environment may raise at any of them:
  \<open>Some (k, x)\<close> raises \<open>x\<close> when statement \<open>k\<close> of the block (counted from 0) starts,
  after the statements before it have run and before it has any effect. The result is
  the state reached and the exception that left the block, if any.
\<close>

definition run_try :: "(nat \<times> py_exc) option \<Rightarrow> ('s \<Rightarrow> 's) list \<Rightarrow> 's \<Rightarrow> 's \<times> py_exc option" where
  "run_try flt body s =
     (case flt of
        None \<Rightarrow> (run_stmts body s, None)
      | Some (k, x) \<Rightarrow>
          if k < length body then (run_stmts (take k body) s, Some x)
          else (run_stmts body s, None))"

text \<open>
  How far a \<^verbatim>\<open>while True\<close> loop has come on the inputs given so far: still looping,
  left by \<^verbatim>\<open>break\<close>, or left by an exception that no clause caught.
\<close>

datatype 's outcome = Running 's | Exited 's | Crashed py_exc 's

fun state_of :: "'s outcome \<Rightarrow> 's" where
  "state_of (Running s) = s"
| "state_of (Exited s) = s"
| "state_of (Crashed x s) = s"

fun is_running :: "'s outcome \<Rightarrow> bool" where
  "is_running (Running s) = True"
| "is_running (Exited s) = False"
| "is_running (Crashed x s) = False"

subsection \<open>The extended variant\<close>

datatype label = Title | Subtitle | Status | Counter | TimeDisplay | ColorInfo

text \<open>
  What one pass of the loop reads from outside: the three random draws of
  \<^verbatim>\<open>random_color\<close>, the result of
  \<^verbatim>\<open>time.ticks_diff(time.ticks_ms(), start_time)\<close>, the three buttons, the float
  arithmetic of the board, and the faults injected into the \<^verbatim>\<open>try\<close> body and into
  the \<^verbatim>\<open>except\<close> clause that handles the first.
\<close>

record env =
  fpu :: float_ops
  rand_r :: nat
  rand_g :: nat
  rand_b :: nat
  ticks_diff_ms :: int
  btnA :: bool
  btnB :: bool
  btnC :: bool
  fault :: "(nat \<times> py_exc) option"
  handler_fault :: "(nat \<times> py_exc) option"

text \<open>\<^verbatim>\<open>init_ui\<close>, lines 23--45: the six labels as constructed.\<close>

fun init_ui :: "label \<Rightarrow> textbox" where
  "init_ui Title =
     \<lparr>tb_x = 10, tb_y = 20, tb_text = ''M5STACK DEMO'', tb_font = ''FONT_DejaVu24'', tb_color = 0xFFFFFF\<rparr>"
| "init_ui Subtitle =
     \<lparr>tb_x = 15, tb_y = 50, tb_text = ''Random Color Background'', tb_font = ''FONT_Default'', tb_color = 0xFFFF00\<rparr>"
| "init_ui Status =
     \<lparr>tb_x = 10, tb_y = 80, tb_text = ''Status: Running'', tb_font = ''FONT_Default'', tb_color = 0x00FF00\<rparr>"
| "init_ui Counter =
     \<lparr>tb_x = 10, tb_y = 110, tb_text = ''Count: 0'', tb_font = ''FONT_DejaVu18'', tb_color = 0x00FFFF\<rparr>"
| "init_ui TimeDisplay =
     \<lparr>tb_x = 10, tb_y = 140, tb_text = ''Time: 00:00'', tb_font = ''FONT_Default'', tb_color = 0xFFFFFF\<rparr>"
| "init_ui ColorInfo =
     \<lparr>tb_x = 10, tb_y = 170, tb_text = ''RGB: 0x000000'', tb_font = ''FONT_Default'', tb_color = 0xFFFFFF\<rparr>"

text \<open>
  The state when the loop is entered: \<^verbatim>\<open>lcd.clear()\<close> at import, then lines 49--55 of
  \<^verbatim>\<open>main\<close>.
\<close>

definition init_state :: "label ui" where
  "init_state =
     \<lparr>labels = init_ui, count = 0,
      trace = [Clear, Print ''M5Stack Flash Sample Started!'',
               Rect 10 200 300 20 0x333333 0x333333]\<rparr>"

text \<open>
  Lines 95--109, statement by statement. The first statement evaluates the conditions of
  the \<^verbatim>\<open>if\<close>/\<^verbatim>\<open>elif\<close> chain: \<^verbatim>\<open>btnA\<close> is asked first, \<^verbatim>\<open>btnB\<close> only when
  \<^verbatim>\<open>btnA\<close> is up, \<^verbatim>\<open>btnC\<close> only when both are.
\<close>

definition check_buttons :: "env \<Rightarrow> (label ui \<Rightarrow> label ui) list" where
  "check_buttons e =
     id #
     (if btnA e then
        [setText Subtitle ''Button A Pressed!'', setColor Subtitle 0xFF0000, emit (Sleep 100)]
      else if btnB e then
        [setText Subtitle ''Button B Pressed!'', setColor Subtitle 0x00FF00, emit (Sleep 100)]
      else if btnC e then
        [setText Subtitle ''Button C Pressed!'', setColor Subtitle 0x0000FF, emit (Sleep 100)]
      else
        [setText Subtitle ''Random Color Background'', setColor Subtitle 0xFFFF00])"

text \<open>
  The \<^verbatim>\<open>try\<close> body, lines 59--112, statement by statement. Statements that only bind
  a local (\<^verbatim>\<open>bg_color\<close>, \<^verbatim>\<open>elapsed\<close>, \<^verbatim>\<open>progress\<close>) leave the state as it is;
  \<^verbatim>\<open>count\<close> does not change between line 64 and the lines that read it.
\<close>

definition try_body :: "env \<Rightarrow> (label ui \<Rightarrow> label ui) list" where
  "try_body e =
     (let bg_color = random_color (rand_r e) (rand_g e) (rand_b e);
          elapsed = ticks_diff_ms e div 1000
      in [id,
          emit (ScreenColor bg_color),
          incr_count,
          (\<lambda>s. setText Counter (counter_text (count s)) s),
          id,
          setText TimeDisplay (time_text elapsed),
          setText ColorInfo (color_text bg_color),
          id,
          emit (Rect 10 200 300 20 0x333333 0x333333),
          (\<lambda>s. emit (Rect 12 202 (progress (fpu e) (count s)) 16 0x00FF88 0x00FF88) s),
          (\<lambda>s. setText Status (fst (blink (count s))) s),
          (\<lambda>s. setColor Status (snd (blink (count s))) s),
          (\<lambda>s. setColor Title (title_color (count s)) s)]
         @ check_buttons e
         @ [emit (Sleep 500)])"

text \<open>Lines 118--121, the clause \<^verbatim>\<open>except Exception as e\<close>.\<close>

definition except_exception :: "string \<Rightarrow> (label ui \<Rightarrow> label ui) list" where
  "except_exception msg =
     [emit (Print (''Error occurred: '' @ msg)),
      setText Status ''Status: ERROR'',
      setColor Status 0xFF0000,
      emit (Sleep 1000)]"

text \<open>Line 115, the clause \<^verbatim>\<open>except KeyboardInterrupt\<close> before its \<^verbatim>\<open>break\<close>.\<close>

definition except_interrupt :: "(label ui \<Rightarrow> label ui) list" where
  "except_interrupt = [emit (Print ''Program interrupted by user'')]"

text \<open>
  One pass of lines 57--121. An exception raised inside an \<^verbatim>\<open>except\<close> clause is not
  looked up in the clauses of the same \<^verbatim>\<open>try\<close>: it leaves the loop.
\<close>

definition iteration :: "env \<Rightarrow> label ui \<Rightarrow> label ui outcome" where
  "iteration e s =
     (case run_try (fault e) (try_body e) s of
        (s', None) \<Rightarrow> Running s'
      | (s', Some KeyboardInterrupt) \<Rightarrow>
          (case run_try (handler_fault e) except_interrupt s' of
             (s'', None) \<Rightarrow> Exited s''
           | (s'', Some y) \<Rightarrow> Crashed y s'')
      | (s', Some (Exception msg)) \<Rightarrow>
          (case run_try (handler_fault e) (except_exception msg) s' of
             (s'', None) \<Rightarrow> Running s''
           | (s'', Some y) \<Rightarrow> Crashed y s'')
      | (s', Some SystemExit) \<Rightarrow> Crashed SystemExit s')"

text \<open>The loop on the inputs of its first passes, one \<open>env\<close> per pass.\<close>

fun main_loop :: "env list \<Rightarrow> label ui \<Rightarrow> label ui outcome" where
  "main_loop [] s = Running s"
| "main_loop (e # es) s =
     (case iteration e s of
        Running s' \<Rightarrow> main_loop es s'
      | Exited s' \<Rightarrow> Exited s'
      | Crashed x s' \<Rightarrow> Crashed x s')"

definition main :: "env list \<Rightarrow> label ui outcome" where
  "main es = main_loop es init_state"

subsection \<open>The simple variant\<close>

datatype simple_label = STitle | SInfo | SCounter

text \<open>
  One pass reads the three draws of \<^verbatim>\<open>urandom.getrandbits(16)\<close> (background, title,
  info) and the fault injected into the \<^verbatim>\<open>try\<close> body.
\<close>

record simple_env =
  rand_bg :: nat
  rand_title :: nat
  rand_info :: nat
  simple_fault :: "(nat \<times> py_exc) option"

text \<open>Lines 19--21 of the simple variant.\<close>

fun simple_init_ui :: "simple_label \<Rightarrow> textbox" where
  "simple_init_ui STitle =
     \<lparr>tb_x = 50, tb_y = 50, tb_text = ''HELLO M5STACK'', tb_font = ''FONT_DejaVu24'', tb_color = 0xFFFFFF\<rparr>"
| "simple_init_ui SInfo =
     \<lparr>tb_x = 80, tb_y = 100, tb_text = ''Random Colors!'', tb_font = ''FONT_Default'', tb_color = 0x00FFFF\<rparr>"
| "simple_init_ui SCounter =
     \<lparr>tb_x = 100, tb_y = 150, tb_text = ''0'', tb_font = ''FONT_DejaVu18'', tb_color = 0xFFFF00\<rparr>"

definition simple_init_state :: "simple_label ui" where
  "simple_init_state =
     \<lparr>labels = simple_init_ui, count = 0, trace = [Print ''Simple Flash Sample Started!'']\<rparr>"

text \<open>The \<^verbatim>\<open>try\<close> body, lines 27--39 of the simple variant.\<close>

definition simple_try_body :: "simple_env \<Rightarrow> (simple_label ui \<Rightarrow> simple_label ui) list" where
  "simple_try_body e =
     (let bg_color = random_color_simple (rand_bg e)
      in [id,
          emit (ScreenColor bg_color),
          incr_count,
          (\<lambda>s. setText SCounter (py_str_int (count s)) s),
          setColor STitle (random_color_simple (rand_title e)),
          setColor SInfo (random_color_simple (rand_info e)),
          emit (Sleep 1000)])"

text \<open>
  One pass of lines 25--42. The only clause is \<^verbatim>\<open>except KeyboardInterrupt: break\<close>;
  every other exception leaves the loop and \<^verbatim>\<open>main\<close>.
\<close>

definition simple_iteration :: "simple_env \<Rightarrow> simple_label ui \<Rightarrow> simple_label ui outcome" where
  "simple_iteration e s =
     (case run_try (simple_fault e) (simple_try_body e) s of
        (s', None) \<Rightarrow> Running s'
      | (s', Some KeyboardInterrupt) \<Rightarrow> Exited s'
      | (s', Some x) \<Rightarrow> Crashed x s')"

fun simple_main_loop :: "simple_env list \<Rightarrow> simple_label ui \<Rightarrow> simple_label ui outcome" where
  "simple_main_loop [] s = Running s"
| "simple_main_loop (e # es) s =
     (case simple_iteration e s of
        Running s' \<Rightarrow> simple_main_loop es s'
      | Exited s' \<Rightarrow> Exited s'
      | Crashed x s' \<Rightarrow> Crashed x s')"

definition simple_main :: "simple_env list \<Rightarrow> simple_label ui outcome" where
  "simple_main es = simple_main_loop es simple_init_state"

subsection \<open>Sample inputs\<close>

text \<open>
  A float format for the examples: binary32 rounding (24 significant bits, to nearest, a
  tie to even; exponent range not limited), with a sine rounded from the exact one.
\<close>

definition binary32_round :: "real \<Rightarrow> real" where
  "binary32_round x =
     (if x = 0 then 0
      else (let u = 2 powr (of_int \<lfloor>log 2 \<bar>x\<bar>\<rfloor> - 23)
            in of_int (round_half_even (x / u)) * u))"

definition binary32 :: float_ops where
  "binary32 = \<lparr>fl_round = binary32_round, fl_sin = (\<lambda>x. binary32_round (sin x)),
               fl_lit_02 = binary32_round (1 / 5)\<rparr>"

text \<open>
  A pass of the extended loop with buttons B and C down and no fault, and a pass of the
  simple loop with no fault; the examples below vary them.
\<close>

definition env_ok :: env where
  "env_ok = \<lparr>fpu = binary32, rand_r = 1, rand_g = 2, rand_b = 3, ticks_diff_ms = 125000,
             btnA = False, btnB = True, btnC = True, fault = None, handler_fault = None\<rparr>"


definition simple_env_ok :: simple_env where
  "simple_env_ok = \<lparr>rand_bg = 7, rand_title = 8, rand_info = 9, simple_fault = None\<rparr>"

section \<open>Properties\<close>

subsection \<open>Digits and padding\<close>

text \<open>
  Each padded digit string, digit by digit.
\<close>

lemma digit_char_0: "digit_char 0 = CHR ''0''"
  by (simp add: digit_char_def)

lemma zfill_hex_base: "n < 16 \<Longrightarrow> zfill 1 (hex_digits n) = [digit_char n]"
  by (simp add: zfill_def hex_digits.simps)

lemma zfill_hex_step:
  assumes "1 \<le> k"
  shows "zfill (Suc k) (hex_digits n) = zfill k (hex_digits (n div 16)) @ [digit_char (n mod 16)]"
proof (cases "n < 16")
  case True
  then have "hex_digits n = [digit_char n]" "hex_digits (n div 16) = [CHR ''0'']"
    by (simp_all add: hex_digits.simps digit_char_0)
  moreover have "replicate k (CHR ''0'') = replicate (k - 1) (CHR ''0'') @ [CHR ''0'']"
    using assms by (cases k) (simp_all add: replicate_append_same)
  ultimately show ?thesis using True by (simp add: zfill_def)
next
  case False
  then have "hex_digits n = hex_digits (n div 16) @ [digit_char (n mod 16)]"
    by (subst hex_digits.simps) simp
  then show ?thesis by (simp add: zfill_def)
qed

lemma fmt_06X_digits:
  assumes "c < 16 ^ 6"
  shows "fmt_06X c =
    [digit_char (c div 16 ^ 5), digit_char (c div 16 ^ 4 mod 16), digit_char (c div 16 ^ 3 mod 16),
     digit_char (c div 16 ^ 2 mod 16), digit_char (c div 16 mod 16), digit_char (c mod 16)]"
proof -
  have d2: "c div 16 div 16 = c div 16 ^ 2" by (simp add: div_mult2_eq)
  have d3: "c div 16 ^ 2 div 16 = c div 16 ^ 3" by (simp add: div_mult2_eq)
  have d4: "c div 16 ^ 3 div 16 = c div 16 ^ 4" by (simp add: div_mult2_eq)
  have d5: "c div 16 ^ 4 div 16 = c div 16 ^ 5" by (simp add: div_mult2_eq)
  have top: "c div 16 ^ 5 < 16" using assms by (simp add: less_mult_imp_div_less)
  have s6: "zfill 6 (hex_digits c) = zfill 5 (hex_digits (c div 16)) @ [digit_char (c mod 16)]"
    using zfill_hex_step [of 5 c] by simp
  have s5: "zfill 5 (hex_digits (c div 16)) = zfill 4 (hex_digits (c div 16 ^ 2)) @ [digit_char (c div 16 mod 16)]"
    using zfill_hex_step [of 4 "c div 16"] by (simp add: d2)
  have s4: "zfill 4 (hex_digits (c div 16 ^ 2)) = zfill 3 (hex_digits (c div 16 ^ 3)) @ [digit_char (c div 16 ^ 2 mod 16)]"
    using zfill_hex_step [of 3 "c div 16 ^ 2"] by (simp only: d3 Suc_numeral) simp
  have s3: "zfill 3 (hex_digits (c div 16 ^ 3)) = zfill 2 (hex_digits (c div 16 ^ 4)) @ [digit_char (c div 16 ^ 3 mod 16)]"
    using zfill_hex_step [of 2 "c div 16 ^ 3"] by (simp only: d4 Suc_numeral) simp
  have s2: "zfill 2 (hex_digits (c div 16 ^ 4)) = zfill 1 (hex_digits (c div 16 ^ 5)) @ [digit_char (c div 16 ^ 4 mod 16)]"
    using zfill_hex_step [of 1 "c div 16 ^ 4"] by (simp only: d5) (simp add: numeral_2_eq_2)
  have s1: "zfill 1 (hex_digits (c div 16 ^ 5)) = [digit_char (c div 16 ^ 5)]"
    using top by (rule zfill_hex_base)
  show ?thesis unfolding fmt_06X_def s6 s5 s4 s3 s2 s1 by simp
qed

lemma zfill_dec_base: "n < 10 \<Longrightarrow> zfill 1 (dec_digits n) = [digit_char n]"
  by (simp add: zfill_def dec_digits.simps)

lemma zfill_dec_step:
  assumes "1 \<le> k"
  shows "zfill (Suc k) (dec_digits n) = zfill k (dec_digits (n div 10)) @ [digit_char (n mod 10)]"
proof (cases "n < 10")
  case True
  then have "dec_digits n = [digit_char n]" "dec_digits (n div 10) = [CHR ''0'']"
    by (simp_all add: dec_digits.simps digit_char_0)
  moreover have "replicate k (CHR ''0'') = replicate (k - 1) (CHR ''0'') @ [CHR ''0'']"
    using assms by (cases k) (simp_all add: replicate_append_same)
  ultimately show ?thesis using True by (simp add: zfill_def)
next
  case False
  then have "dec_digits n = dec_digits (n div 10) @ [digit_char (n mod 10)]"
    by (subst dec_digits.simps) simp
  then show ?thesis by (simp add: zfill_def)
qed

lemma fmt_02d_digits:
  assumes "0 \<le> n" "n < 100"
  shows "fmt_02d n = [digit_char (nat n div 10), digit_char (nat n mod 10)]"
proof -
  have "nat n div 10 < 10" using assms by simp
  then have s1: "zfill 1 (dec_digits (nat n div 10)) = [digit_char (nat n div 10)]"
    by (rule zfill_dec_base)
  have s2: "zfill 2 (dec_digits (nat n)) = zfill 1 (dec_digits (nat n div 10)) @ [digit_char (nat n mod 10)]"
    using zfill_dec_step [of 1 "nat n"] by (simp add: numeral_2_eq_2)
  have "\<not> n < 0" using assms by simp
  then show ?thesis unfolding fmt_02d_def s2 s1 by simp
qed

lemma length_zfill: "length (zfill w ds) = max w (length ds)"
  by (simp add: zfill_def)

text \<open>The decimal digits by position, and how many there are.\<close>

lemma dec_digits_length:
  "0 < length (dec_digits n) \<and> n < 10 ^ length (dec_digits n)
   \<and> (1 < length (dec_digits n) \<longrightarrow> 10 ^ (length (dec_digits n) - 1) \<le> n)"
proof (induction n rule: dec_digits.induct)
  case (1 n)
  show ?case
  proof (cases "n < 10")
    case True
    then show ?thesis by (simp add: dec_digits.simps)
  next
    case False
    define l where "l = length (dec_digits (n div 10))"
    have ds: "dec_digits n = dec_digits (n div 10) @ [digit_char (n mod 10)]"
      using False by (subst dec_digits.simps) simp
    have ih: "0 < l" "n div 10 < 10 ^ l" "1 < l \<longrightarrow> 10 ^ (l - 1) \<le> n div 10"
      using "1.IH" [OF False] unfolding l_def by simp_all
    have len: "length (dec_digits n) = Suc l" by (simp add: ds l_def)
    have up: "n < 10 ^ Suc l"
    proof -
      have "n div 10 + 1 \<le> 10 ^ l" using ih(2) by simp
      then have "10 * (n div 10 + 1) \<le> 10 * 10 ^ l" by simp
      moreover have "n < 10 * (n div 10 + 1)" by presburger
      ultimately show ?thesis by simp
    qed
    have lo: "10 ^ l \<le> n"
    proof (cases "1 < l")
      case True
      then have "10 ^ (l - 1) \<le> n div 10" using ih(3) by simp
      then have "10 * 10 ^ (l - 1) \<le> 10 * (n div 10)" by simp
      moreover have "10 * 10 ^ (l - 1) = (10::nat) ^ l" using True by (cases l) simp_all
      moreover have "10 * (n div 10) \<le> n" by presburger
      ultimately show ?thesis by linarith
    next
      case False
      then have "l = 1" using ih(1) by simp
      then show ?thesis using \<open>\<not> n < 10\<close> by simp
    qed
    show ?thesis unfolding len using up lo by simp
  qed
qed

lemma dec_digits_nth:
  "i < length (dec_digits n) \<Longrightarrow>
     dec_digits n ! (length (dec_digits n) - 1 - i) = digit_char (n div 10 ^ i mod 10)"
proof (induction n arbitrary: i rule: dec_digits.induct)
  case (1 n)
  show ?case
  proof (cases "n < 10")
    case True
    then show ?thesis using "1.prems" by (simp add: dec_digits.simps)
  next
    case False
    define l where "l = length (dec_digits (n div 10))"
    have ds: "dec_digits n = dec_digits (n div 10) @ [digit_char (n mod 10)]"
      using False by (subst dec_digits.simps) simp
    have len: "length (dec_digits n) = Suc l" by (simp add: ds l_def)
    show ?thesis
    proof (cases i)
      case 0
      then show ?thesis unfolding len by (simp add: ds l_def)
    next
      case (Suc j)
      then have j: "j < l" using "1.prems" len by simp
      have "dec_digits (n div 10) ! (l - 1 - j) = digit_char (n div 10 div 10 ^ j mod 10)"
        using "1.IH" [OF False, of j] j unfolding l_def by simp
      moreover have "l - 1 - j < l" using j by simp
      moreover have "n div 10 div 10 ^ j = n div 10 ^ Suc j" by (simp add: div_mult2_eq)
      ultimately show ?thesis unfolding len Suc
        by (simp add: ds nth_append l_def)
    qed
  qed
qed

lemma fmt_02d_digits_all:
  assumes "0 \<le> m"
  shows "2 \<le> length (fmt_02d m) \<and> nat m < 10 ^ length (fmt_02d m)
       \<and> (2 < length (fmt_02d m) \<longrightarrow> 10 ^ (length (fmt_02d m) - 1) \<le> nat m)
       \<and> (\<forall>i<length (fmt_02d m).
             fmt_02d m ! (length (fmt_02d m) - 1 - i) = digit_char (nat m div 10 ^ i mod 10))"
proof (cases "nat m < 10")
  case True
  have f: "fmt_02d m = [CHR ''0'', digit_char (nat m)]"
    using assms True by (simp add: fmt_02d_def zfill_def dec_digits.simps)
  have "fmt_02d m ! (length (fmt_02d m) - 1 - i) = digit_char (nat m div 10 ^ i mod 10)"
    if "i < length (fmt_02d m)" for i
  proof -
    have "i = 0 \<or> i = 1" using that unfolding f by auto
    then show ?thesis using True unfolding f by (auto simp add: digit_char_0)
  qed
  then show ?thesis using True unfolding f by simp
next
  case False
  have l: "0 < length (dec_digits (nat m))" "nat m < 10 ^ length (dec_digits (nat m))"
    "1 < length (dec_digits (nat m)) \<longrightarrow> 10 ^ (length (dec_digits (nat m)) - 1) \<le> nat m"
    using dec_digits_length [of "nat m"] by simp_all
  have "length (dec_digits (nat m)) \<noteq> 1" using l(2) False by auto
  then have two: "2 \<le> length (dec_digits (nat m))" using l(1) by linarith
  then have f: "fmt_02d m = dec_digits (nat m)" using assms by (simp add: fmt_02d_def zfill_def)
  show ?thesis unfolding f using two l dec_digits_nth [of _ "nat m"] by auto
qed

subsection \<open>Packing\<close>

text \<open>
  The three bit fields of \<open>random_color\<close> do not overlap.
\<close>

lemma random_color_unpack:
  assumes "r \<le> 31" "g \<le> 63" "b \<le> 31"
  shows "spec_unpack565 (random_color r g b) = (r, g, b)"
proof -
  have r: "take_bit 5 r = r" using assms by (simp add: take_bit_nat_eq_self)
  have g: "take_bit 6 g = g" using assms by (simp add: take_bit_nat_eq_self)
  have b: "take_bit 5 b = b" using assms by (simp add: take_bit_nat_eq_self)
  have m5: "(0x1F::nat) = mask 5" by (simp add: mask_eq_exp_minus_1)
  have m6: "(0x3F::nat) = mask 6" by (simp add: mask_eq_exp_minus_1)
  have "drop_bit 11 (push_bit 11 (take_bit 5 r) OR push_bit 5 (take_bit 6 g) OR take_bit 5 b) AND mask 5 = take_bit 5 r"
    by (rule bit_eqI) (auto simp add: bit_simps)
  moreover have "drop_bit 5 (push_bit 11 (take_bit 5 r) OR push_bit 5 (take_bit 6 g) OR take_bit 5 b) AND mask 6 = take_bit 6 g"
    by (rule bit_eqI) (auto simp add: bit_simps)
  moreover have "(push_bit 11 (take_bit 5 r) OR push_bit 5 (take_bit 6 g) OR take_bit 5 b) AND mask 5 = take_bit 5 b"
    by (rule bit_eqI) (auto simp add: bit_simps)
  ultimately show ?thesis
    unfolding spec_unpack565_def random_color_def Let_def m5 m6 r g b by (simp add: or.assoc)
qed

lemma random_color_sum:
  assumes "r < 32" "g < 64" "b < 32"
  shows "random_color r g b = r * 2048 + g * 32 + b"
proof -
  have r: "take_bit 5 r = r" using assms by (simp add: take_bit_nat_eq_self)
  have g: "take_bit 6 g = g" using assms by (simp add: take_bit_nat_eq_self)
  have b: "take_bit 5 b = b" using assms by (simp add: take_bit_nat_eq_self)
  have 1: "push_bit 5 (take_bit 6 g) OR take_bit 5 b = push_bit 5 (take_bit 6 g) + take_bit 5 b"
    by (rule disjunctive_add [symmetric]) (auto simp add: bit_simps)
  have 2: "push_bit 11 (take_bit 5 r) OR (push_bit 5 (take_bit 6 g) OR take_bit 5 b) = push_bit 11 (take_bit 5 r) + (push_bit 5 (take_bit 6 g) OR take_bit 5 b)"
    by (rule disjunctive_add [symmetric]) (auto simp add: bit_simps)
  show ?thesis
    using 1 2 unfolding random_color_def Let_def r g b
    by (simp add: push_bit_eq_mult or.assoc)
qed

subsection \<open>Float arithmetic\<close>









subsection \<open>The sine at one step\<close>






subsection \<open>The palette index\<close>

lemma title_index_in_range: "0 \<le> c mod int (length title_colors) \<and> nat (c mod int (length title_colors)) < length title_colors"
  by (simp add: title_colors_def)

lemma title_color_nth:
  assumes "0 \<le> c"
  shows "title_color c = [0xFFFFFF, 0xFF0000, 0x00FF00, 0x0000FF, 0xFFFF00, 0xFF00FF, 0x00FFFF] ! (nat c mod 7)"
proof -
  have len: "int (length title_colors) = 7" by (simp add: title_colors_def)
  have "nat (c mod 7) = nat c mod 7" using assms by (simp add: nat_mod_distrib)
  then have "title_color c = title_colors ! (nat c mod 7)"
    unfolding title_color_def len by (rule arg_cong)
  then show ?thesis unfolding title_colors_def .
qed

subsection \<open>Statements and what they leave alone\<close>

lemma run_stmts_Nil: "run_stmts [] s = s"
  by (simp add: run_stmts_def)

lemma run_stmts_Cons: "run_stmts (f # fs) s = run_stmts fs (f s)"
  by (simp add: run_stmts_def)

lemma run_stmts_append: "run_stmts (fs @ gs) s = run_stmts gs (run_stmts fs s)"
  by (simp add: run_stmts_def)

lemmas run_stmts_simps = run_stmts_Nil run_stmts_Cons run_stmts_append

lemma run_stmts_preserves:
  assumes "\<forall>f\<in>set fs. \<forall>s. P (f s) = P s"
  shows "P (run_stmts fs s) = P s"
  using assms by (induction fs arbitrary: s) (simp_all add: run_stmts_simps)

lemma run_stmts_take_preserves:
  assumes "\<forall>f\<in>set fs. \<forall>s. P (f s) = P s"
  shows "P (run_stmts (take k fs) s) = P s"
proof (rule run_stmts_preserves)
  show "\<forall>f\<in>set (take k fs). \<forall>s. P (f s) = P s"
    using assms by (meson in_set_takeD)
qed

lemma count_setText: "count (setText l t s) = count s"
  by (simp add: setText_def)

lemma count_setColor: "count (setColor l c s) = count s"
  by (simp add: setColor_def)

lemma count_emit: "count (emit ev s) = count s"
  by (simp add: emit_def)

lemma count_incr: "count (incr_count s) = count s + 1"
  by (simp add: incr_count_def)

lemmas count_simps = count_setText count_setColor count_emit count_incr

lemma trace_setText: "trace (setText l t s) = trace s"
  by (simp add: setText_def)

lemma trace_setColor: "trace (setColor l c s) = trace s"
  by (simp add: setColor_def)

lemma trace_emit: "trace (emit ev s) = trace s @ [ev]"
  by (simp add: emit_def)

lemma trace_incr: "trace (incr_count s) = trace s"
  by (simp add: incr_count_def)

lemmas trace_simps = trace_setText trace_setColor trace_emit trace_incr

lemma labels_setText: "labels (setText l t s) = (labels s)(l := (labels s l)\<lparr>tb_text := t\<rparr>)"
  by (simp add: setText_def)

lemma labels_setColor: "labels (setColor l c s) = (labels s)(l := (labels s l)\<lparr>tb_color := c\<rparr>)"
  by (simp add: setColor_def)

lemma labels_emit: "labels (emit ev s) = labels s"
  by (simp add: emit_def)

lemma labels_incr: "labels (incr_count s) = labels s"
  by (simp add: incr_count_def)

lemmas labels_simps = labels_setText labels_setColor labels_emit labels_incr

subsection \<open>The counter along a pass\<close>

text \<open>
  In both bodies the increment is the third statement, and nothing else touches
  \<open>count\<close>.
\<close>

lemma check_buttons_count: "\<forall>f\<in>set (check_buttons e). \<forall>s. count (f s) = count s"
  by (simp add: check_buttons_def count_simps)

lemma except_exception_count: "\<forall>f\<in>set (except_exception msg). \<forall>s. count (f s) = count s"
  by (simp add: except_exception_def count_simps)

lemma except_interrupt_count: "\<forall>f\<in>set except_interrupt. \<forall>s. count (f s) = count s"
  by (simp add: except_interrupt_def count_simps)

lemma try_body_split:
  "\<exists>a b rest. try_body e = a # b # incr_count # rest
     \<and> (\<forall>s. count (a s) = count s) \<and> (\<forall>s. count (b s) = count s)
     \<and> (\<forall>f\<in>set rest. \<forall>s. count (f s) = count s)"
  using check_buttons_count [of e]
  by (simp add: try_body_def Let_def count_simps)

lemma take_ge3: "2 < k \<Longrightarrow> take k (a # b # c # rest) = a # b # c # take (k - 3) rest"
  by (simp add: take_Cons' numeral_3_eq_3)

lemma take_le2: "k \<le> 2 \<Longrightarrow> set (take k (a # b # c # rest)) \<subseteq> {a, b}"
  by (auto simp add: take_Cons' split: if_splits)

lemma count_try_prefix:
  "count (run_stmts (take k (try_body e)) s) = count s + (if 2 < k then 1 else 0)"
proof -
  obtain a b rest where body: "try_body e = a # b # incr_count # rest"
    and a: "\<forall>s. count (a s) = count s" and b: "\<forall>s. count (b s) = count s"
    and rest: "\<forall>f\<in>set rest. \<forall>s. count (f s) = count s"
    using try_body_split [of e] by blast
  show ?thesis
  proof (cases "2 < k")
    case True
    have "count (run_stmts (take (k - 3) rest) (incr_count (b (a s)))) = count (incr_count (b (a s)))"
      using rest by (rule run_stmts_take_preserves)
    then show ?thesis using True a b
      by (simp add: body take_ge3 run_stmts_simps count_incr)
  next
    case False
    then have "set (take k (try_body e)) \<subseteq> {a, b}"
      unfolding body by (intro take_le2) simp
    then have "\<forall>f\<in>set (take k (try_body e)). \<forall>s. count (f s) = count s"
      using a b by auto
    then have "count (run_stmts (take k (try_body e)) s) = count s"
      by (rule run_stmts_preserves)
    then show ?thesis using False by simp
  qed
qed

lemma length_try_body: "2 < length (try_body e)"
  by (simp add: try_body_def Let_def)

lemma count_try_whole: "count (run_stmts (try_body e) s) = count s + 1"
  using count_try_prefix [of "length (try_body e)" e s] length_try_body [of e] by simp

lemma count_run_try:
  "count (fst (run_try flt (try_body e) s)) = count s + (case flt of None \<Rightarrow> 1 | Some (k, x) \<Rightarrow> if 2 < k then 1 else 0)"
proof (cases flt)
  case None
  then show ?thesis by (simp add: run_try_def count_try_whole)
next
  case (Some p)
  obtain k x where p: "p = (k, x)" by (cases p)
  show ?thesis
  proof (cases "k < length (try_body e)")
    case True
    then show ?thesis using Some p by (simp add: run_try_def count_try_prefix)
  next
    case False
    then have "2 < k" using length_try_body [of e] by simp
    then show ?thesis using Some p False by (simp add: run_try_def count_try_whole)
  qed
qed

lemma count_run_try_handler:
  assumes "\<forall>f\<in>set h. \<forall>s. count (f s) = count s"
  shows "count (fst (run_try flt h s)) = count s"
proof (cases flt)
  case None
  then show ?thesis using assms by (simp add: run_try_def run_stmts_preserves)
next
  case (Some p)
  obtain k x where p: "p = (k, x)" by (cases p)
  show ?thesis using Some p assms
    by (simp add: run_try_def run_stmts_preserves run_stmts_take_preserves)
qed

lemma count_iteration:
  "count (state_of (iteration e s)) = count s + (case fault e of None \<Rightarrow> 1 | Some (k, x) \<Rightarrow> if 2 < k then 1 else 0)"
proof -
  obtain s1 r where t: "run_try (fault e) (try_body e) s = (s1, r)" by (cases "run_try (fault e) (try_body e) s")
  have c1: "count s1 = count s + (case fault e of None \<Rightarrow> 1 | Some (k, x) \<Rightarrow> if 2 < k then 1 else 0)"
    using count_run_try [of "fault e" e s] t by simp
  have h1: "\<And>msg. count (fst (run_try (handler_fault e) (except_exception msg) s1)) = count s1"
    by (rule count_run_try_handler) (rule except_exception_count)
  have h2: "count (fst (run_try (handler_fault e) except_interrupt s1)) = count s1"
    by (rule count_run_try_handler) (rule except_interrupt_count)
  have "count (state_of (iteration e s)) = count s1"
  proof (cases r)
    case None
    then show ?thesis using t by (simp add: iteration_def)
  next
    case (Some x)
    show ?thesis
    proof (cases x)
      case KeyboardInterrupt
      then show ?thesis using t Some h2
        by (cases "run_try (handler_fault e) except_interrupt s1") (auto simp add: iteration_def split: option.splits)
    next
      case SystemExit
      then show ?thesis using t Some by (simp add: iteration_def)
    next
      case (Exception msg)
      then show ?thesis using t Some h1 [of msg]
        by (cases "run_try (handler_fault e) (except_exception msg) s1") (auto simp add: iteration_def split: option.splits)
    qed
  qed
  then show ?thesis using c1 by simp
qed

lemma count_main_loop_mono: "count s \<le> count (state_of (main_loop es s))"
proof (induction es arbitrary: s)
  case Nil
  then show ?case by simp
next
  case (Cons e es)
  have step: "count s \<le> count (state_of (iteration e s))"
    by (simp add: count_iteration split: option.splits)
  show ?case
  proof (cases "iteration e s")
    case (Running s')
    then show ?thesis using step Cons.IH [of s'] by simp
  next
    case (Exited s')
    then show ?thesis using step by simp
  next
    case (Crashed x s')
    then show ?thesis using step by simp
  qed
qed

lemma simple_try_body_split:
  "\<exists>a b rest. simple_try_body e = a # b # incr_count # rest
     \<and> (\<forall>s. count (a s) = count s) \<and> (\<forall>s. count (b s) = count s)
     \<and> (\<forall>f\<in>set rest. \<forall>s. count (f s) = count s)"
  by (simp add: simple_try_body_def Let_def count_simps)

lemma count_simple_try_prefix:
  "count (run_stmts (take k (simple_try_body e)) s) = count s + (if 2 < k then 1 else 0)"
proof -
  obtain a b rest where body: "simple_try_body e = a # b # incr_count # rest"
    and a: "\<forall>s. count (a s) = count s" and b: "\<forall>s. count (b s) = count s"
    and rest: "\<forall>f\<in>set rest. \<forall>s. count (f s) = count s"
    using simple_try_body_split [of e] by blast
  show ?thesis
  proof (cases "2 < k")
    case True
    have "count (run_stmts (take (k - 3) rest) (incr_count (b (a s)))) = count (incr_count (b (a s)))"
      using rest by (rule run_stmts_take_preserves)
    then show ?thesis using True a b
      by (simp add: body take_ge3 run_stmts_simps count_incr)
  next
    case False
    then have "set (take k (simple_try_body e)) \<subseteq> {a, b}"
      unfolding body by (intro take_le2) simp
    then have "\<forall>f\<in>set (take k (simple_try_body e)). \<forall>s. count (f s) = count s"
      using a b by auto
    then have "count (run_stmts (take k (simple_try_body e)) s) = count s"
      by (rule run_stmts_preserves)
    then show ?thesis using False by simp
  qed
qed

lemma length_simple_try_body: "length (simple_try_body e) = 7"
  by (simp add: simple_try_body_def Let_def)

lemma count_simple_try_whole: "count (run_stmts (simple_try_body e) s) = count s + 1"
  using count_simple_try_prefix [of "length (simple_try_body e)" e s] length_simple_try_body [of e] by simp

lemma count_simple_run_try:
  "count (fst (run_try flt (simple_try_body e) s)) = count s + (case flt of None \<Rightarrow> 1 | Some (k, x) \<Rightarrow> if 2 < k then 1 else 0)"
proof (cases flt)
  case None
  then show ?thesis by (simp add: run_try_def count_simple_try_whole)
next
  case (Some p)
  obtain k x where p: "p = (k, x)" by (cases p)
  show ?thesis
  proof (cases "k < length (simple_try_body e)")
    case True
    then show ?thesis using Some p by (simp add: run_try_def count_simple_try_prefix)
  next
    case False
    then have "2 < k" using length_simple_try_body [of e] by simp
    then show ?thesis using Some p False by (simp add: run_try_def count_simple_try_whole)
  qed
qed

lemma state_of_simple_iteration:
  "state_of (simple_iteration e s) = fst (run_try (simple_fault e) (simple_try_body e) s)"
  by (cases "run_try (simple_fault e) (simple_try_body e) s")
     (auto simp add: simple_iteration_def split: option.splits py_exc.splits)

lemma count_simple_iteration:
  "count (state_of (simple_iteration e s)) = count s + (case simple_fault e of None \<Rightarrow> 1 | Some (k, x) \<Rightarrow> if 2 < k then 1 else 0)"
  by (simp only: state_of_simple_iteration count_simple_run_try)

lemma count_simple_main_loop_mono: "count s \<le> count (state_of (simple_main_loop es s))"
proof (induction es arbitrary: s)
  case Nil
  then show ?case by simp
next
  case (Cons e es)
  have step: "count s \<le> count (state_of (simple_iteration e s))"
    by (simp add: count_simple_iteration split: option.splits)
  show ?case
  proof (cases "simple_iteration e s")
    case (Running s')
    then show ?thesis using step Cons.IH [of s'] by simp
  next
    case (Exited s')
    then show ?thesis using step by simp
  next
    case (Crashed x s')
    then show ?thesis using step by simp
  qed
qed

lemma iteration_no_fault: "fault e = None \<Longrightarrow> iteration e s = Running (run_stmts (try_body e) s)"
  by (simp add: iteration_def run_try_def)

lemma simple_iteration_no_fault:
  "simple_fault e = None \<Longrightarrow> simple_iteration e s = Running (run_stmts (simple_try_body e) s)"
  by (simp add: simple_iteration_def run_try_def)

lemma main_loop_fault_free:
  assumes "\<forall>e\<in>set es. fault e = None"
  shows "is_running (main_loop es s) \<and> count (state_of (main_loop es s)) = count s + int (length es)"
  using assms
proof (induction es arbitrary: s)
  case Nil
  then show ?case by simp
next
  case (Cons e es)
  then have "iteration e s = Running (run_stmts (try_body e) s)" by (simp add: iteration_no_fault)
  then show ?case using Cons.IH [of "run_stmts (try_body e) s"] Cons.prems
    by (simp add: count_try_whole)
qed

lemma simple_main_loop_fault_free:
  assumes "\<forall>e\<in>set es. simple_fault e = None"
  shows "is_running (simple_main_loop es s) \<and> count (state_of (simple_main_loop es s)) = count s + int (length es)"
  using assms
proof (induction es arbitrary: s)
  case Nil
  then show ?case by simp
next
  case (Cons e es)
  then have "simple_iteration e s = Running (run_stmts (simple_try_body e) s)" by (simp add: simple_iteration_no_fault)
  then show ?case using Cons.IH [of "run_stmts (simple_try_body e) s"] Cons.prems
    by (simp add: count_simple_try_whole)
qed

subsection \<open>The labels and the trace after a pass\<close>

lemma labels_check_buttons_other:
  "l \<noteq> Subtitle \<Longrightarrow> labels (run_stmts (check_buttons e) s) l = labels s l"
  by (simp add: check_buttons_def run_stmts_simps labels_simps)

lemma title_after_try:
  "labels (run_stmts (try_body e) s) Title = (labels s Title)\<lparr>tb_color := title_color (count s + 1)\<rparr>"
  by (simp add: try_body_def Let_def run_stmts_simps labels_simps count_simps labels_check_buttons_other)

lemma status_after_try:
  "labels (run_stmts (try_body e) s) Status =
     (labels s Status)\<lparr>tb_text := fst (blink (count s + 1)), tb_color := snd (blink (count s + 1))\<rparr>"
  by (simp add: try_body_def Let_def run_stmts_simps labels_simps count_simps labels_check_buttons_other)

lemma subtitle_check_buttons:
  "labels (run_stmts (check_buttons e) s) Subtitle =
     (labels s Subtitle)\<lparr>
        tb_text := (if btnA e then ''Button A Pressed!'' else if btnB e then ''Button B Pressed!''
                    else if btnC e then ''Button C Pressed!'' else ''Random Color Background''),
        tb_color := (if btnA e then 0xFF0000 else if btnB e then 0x00FF00
                     else if btnC e then 0x0000FF else 0xFFFF00)\<rparr>"
  by (simp add: check_buttons_def run_stmts_simps labels_simps)

lemma trace_check_buttons:
  "trace (run_stmts (check_buttons e) s) =
     trace s @ (if btnA e \<or> btnB e \<or> btnC e then [Sleep 100] else [])"
  by (simp add: check_buttons_def run_stmts_simps trace_simps)

lemma subtitle_after_try:
  "labels (run_stmts (try_body e) s) Subtitle =
     (labels s Subtitle)\<lparr>
        tb_text := (if btnA e then ''Button A Pressed!'' else if btnB e then ''Button B Pressed!''
                    else if btnC e then ''Button C Pressed!'' else ''Random Color Background''),
        tb_color := (if btnA e then 0xFF0000 else if btnB e then 0x00FF00
                     else if btnC e then 0x0000FF else 0xFFFF00)\<rparr>"
  by (simp add: try_body_def Let_def run_stmts_simps labels_simps subtitle_check_buttons)

lemma trace_after_try:
  "trace (run_stmts (try_body e) s) =
     trace s @ [ScreenColor (random_color (rand_r e) (rand_g e) (rand_b e)),
                Rect 10 200 300 20 0x333333 0x333333,
                Rect 12 202 (progress (fpu e) (count s + 1)) 16 0x00FF88 0x00FF88]
             @ (if btnA e \<or> btnB e \<or> btnC e then [Sleep 100] else [])
             @ [Sleep 500]"
  by (simp add: try_body_def Let_def run_stmts_simps trace_simps count_simps trace_check_buttons)

lemma handler_after:
  "tb_text (labels (run_stmts (except_exception msg) s) Status) = ''Status: ERROR''
   \<and> tb_color (labels (run_stmts (except_exception msg) s) Status) = 0xFF0000
   \<and> trace (run_stmts (except_exception msg) s) = trace s @ [Print (''Error occurred: '' @ msg), Sleep 1000]
   \<and> count (run_stmts (except_exception msg) s) = count s"
  by (simp add: except_exception_def run_stmts_simps labels_simps trace_simps count_simps)

lemma iteration_caught:
  assumes "fault e = Some (k, Exception msg)" "k < length (try_body e)" "handler_fault e = None"
  shows "iteration e s = Running (run_stmts (except_exception msg) (run_stmts (take k (try_body e)) s))"
  using assms by (simp add: iteration_def run_try_def)

lemma iteration_late_fault:
  assumes "fault e = Some (k, x)" "\<not> k < length (try_body e)"
  shows "iteration e s = Running (run_stmts (try_body e) s)"
  using assms by (simp add: iteration_def run_try_def)

lemma iteration_contained:
  assumes "handler_fault e = None" "fault e = None \<or> (\<exists>k msg. fault e = Some (k, Exception msg))"
  shows "is_running (iteration e s)"
proof (cases "fault e")
  case None
  then show ?thesis by (simp add: iteration_no_fault)
next
  case (Some p)
  then obtain k msg where f: "fault e = Some (k, Exception msg)" using assms(2) by auto
  show ?thesis
  proof (cases "k < length (try_body e)")
    case True
    then show ?thesis using f assms(1) by (simp add: iteration_caught)
  next
    case False
    then show ?thesis using f by (simp add: iteration_late_fault)
  qed
qed

lemma main_loop_contained:
  assumes "\<forall>e\<in>set es. handler_fault e = None \<and> (fault e = None \<or> (\<exists>k msg. fault e = Some (k, Exception msg)))"
  shows "is_running (main_loop es s)"
  using assms
proof (induction es arbitrary: s)
  case Nil
  then show ?case by simp
next
  case (Cons e es)
  then have "is_running (iteration e s)" by (simp add: iteration_contained)
  then obtain s' where "iteration e s = Running s'" by (cases "iteration e s") simp_all
  then show ?case using Cons.IH [of s'] Cons.prems by simp
qed

lemma time_after_try:
  "tb_text (labels (run_stmts (try_body e) s) TimeDisplay) = time_text (ticks_diff_ms e div 1000)"
  by (simp add: try_body_def Let_def run_stmts_simps labels_simps labels_check_buttons_other)

lemma color_info_after_try:
  "tb_text (labels (run_stmts (try_body e) s) ColorInfo) =
     color_text (random_color (rand_r e) (rand_g e) (rand_b e))"
  by (simp add: try_body_def Let_def run_stmts_simps labels_simps labels_check_buttons_other)

lemma length_try_body_eq: "length (try_body e) = (if btnA e \<or> btnB e \<or> btnC e then 18 else 17)"
  by (simp add: try_body_def check_buttons_def Let_def)

lemma iteration_handler_fault:
  assumes "fault e = Some (k, Exception msg)" "k < length (try_body e)"
    and "handler_fault e = Some (j, y)" "j < 4"
  shows "\<not> is_running (iteration e s)"
  using assms by (simp add: iteration_def run_try_def except_exception_def)

lemma iteration_system_exit:
  assumes "fault e = Some (k, SystemExit)" "k < length (try_body e)"
  shows "\<not> is_running (iteration e s)"
  using assms by (simp add: iteration_def run_try_def)

lemma main_loop_stops:
  "\<not> is_running (iteration e s) \<Longrightarrow> \<not> is_running (main_loop (e # es) s)"
  by (cases "iteration e s") simp_all

section \<open>The claims\<close>

subsection \<open>Colours\<close>

text \<open>
  Claim C7. For red bits \<open>r\<close> in \<open>[0, 31]\<close>, green bits \<open>g\<close> in \<open>[0, 63]\<close> and blue
  bits \<open>b\<close> in \<open>[0, 31]\<close>, the extended variant's \<open>random_color\<close> returns
  \<open>(r << 11) | (g << 5) | b\<close>, and masking and shifting that value gives \<open>r\<close>, \<open>g\<close> and
  \<open>b\<close> back.
\<close>

theorem rgb565_pack_roundtrip:
  assumes "r \<le> 31" and "g \<le> 63" and "b \<le> 31"
  shows "random_color r g b = (push_bit 11 r OR push_bit 5 g) OR b
       \<and> spec_unpack565 (random_color r g b) = (r, g, b)"
  using random_color_unpack [OF assms] by (simp add: random_color_def)

theorem rgb565_pack_roundtrip_witness:
  "(21::nat) \<le> 31 \<and> (42::nat) \<le> 63 \<and> (9::nat) \<le> 31
   \<and> random_color 21 42 9 = 0xAD49 \<and> spec_unpack565 0xAD49 = (21, 42, 9)"
proof -
  have v: "random_color 21 42 9 = 0xAD49" by (simp add: random_color_def)
  show ?thesis using rgb565_pack_roundtrip [of 21 42 9] by (simp add: v)
qed

text \<open>
  Claim C10. Both \<open>random_color\<close> functions return a value in \<open>[0, 65535]\<close> when
  \<^verbatim>\<open>getrandbits(n)\<close> returns less than \<open>2 ^ n\<close>: the simple variant hands its 16-bit draw
  on, and in the extended variant the three shifted fields do not overlap, so their
  bitwise or is their sum and stays below \<open>0x10000\<close>; the text of the colour label then
  starts with \<open>RGB: 0x00\<close>.
\<close>

theorem random_color_range:
  assumes "r16 < 2 ^ 16" and "r < 2 ^ 5" and "g < 2 ^ 6" and "b < 2 ^ 5"
  shows "random_color_simple r16 \<le> 65535
       \<and> random_color r g b = push_bit 11 r + push_bit 5 g + b
       \<and> random_color r g b \<le> 0xFFFF
       \<and> take 9 (color_text (random_color r g b)) = ''RGB: 0x00''
       \<and> length (color_text (random_color r g b)) = 13"
proof -
  have rgb: "r < 32" "g < 64" "b < 32" using assms by simp_all
  have s: "random_color r g b = r * 2048 + g * 32 + b"
    using rgb by (rule random_color_sum)
  have le: "random_color r g b \<le> 65535" unfolding s using rgb by simp
  then have lt: "random_color r g b < 16 ^ 6" by simp
  have z: "random_color r g b div 16 ^ 5 = 0" "random_color r g b div 16 ^ 4 = 0"
    using le by simp_all
  have "color_text (random_color r g b) = ''RGB: 0x00'' @
      [digit_char (random_color r g b div 16 ^ 3 mod 16), digit_char (random_color r g b div 16 ^ 2 mod 16),
       digit_char (random_color r g b div 16 mod 16), digit_char (random_color r g b mod 16)]"
    unfolding color_text_def fmt_06X_digits [OF lt] z by (simp add: digit_char_0)
  then have "take 9 (color_text (random_color r g b)) = ''RGB: 0x00''"
    "length (color_text (random_color r g b)) = 13" by simp_all
  moreover have "random_color_simple r16 \<le> 65535" using assms(1) by (simp add: random_color_simple_def)
  ultimately show ?thesis using s le by (simp add: push_bit_eq_mult)
qed

theorem random_color_range_witness:
  "(65535::nat) < 2 ^ 16 \<and> (31::nat) < 2 ^ 5 \<and> (63::nat) < 2 ^ 6
   \<and> random_color_simple 65535 \<le> 65535 \<and> random_color 31 63 31 = 65535
   \<and> take 9 (color_text (random_color 31 63 31)) = ''RGB: 0x00''"
proof -
  have v: "random_color 31 63 31 = 65535" by (simp add: random_color_def)
  show ?thesis using random_color_range [of 65535 31 63 31] by (simp add: v)
qed

subsection \<open>The two cycles\<close>

text \<open>
  Claim C2. In the extended variant, for every non-negative counter value the title
  colour chosen in the pass that shows that value is entry \<open>count mod 7\<close> of the palette
  \<open>[0xFFFFFF, 0xFF0000, 0x00FF00, 0x0000FF, 0xFFFF00, 0xFF00FF, 0x00FFFF]\<close>.
\<close>

theorem title_palette_cycle:
  assumes "0 \<le> c"
  shows "title_color c = [0xFFFFFF, 0xFF0000, 0x00FF00, 0x0000FF, 0xFFFF00, 0xFF00FF, 0x00FFFF] ! (nat c mod 7)
       \<and> (fault e = None \<and> count s + 1 = c \<longrightarrow>
            (\<exists>s'. iteration e s = Running s' \<and> count s' = c
                  \<and> tb_color (labels s' Title) =
                      [0xFFFFFF, 0xFF0000, 0x00FF00, 0x0000FF, 0xFFFF00, 0xFF00FF, 0x00FFFF] ! (nat c mod 7)))"
proof -
  have p: "title_color c = [0xFFFFFF, 0xFF0000, 0x00FF00, 0x0000FF, 0xFFFF00, 0xFF00FF, 0x00FFFF] ! (nat c mod 7)"
    using assms by (rule title_color_nth)
  have "iteration e s = Running (run_stmts (try_body e) s)
          \<and> count (run_stmts (try_body e) s) = c
          \<and> tb_color (labels (run_stmts (try_body e) s) Title) = title_color c"
    if "fault e = None" "count s + 1 = c"
    using that by (simp add: iteration_no_fault count_try_whole title_after_try)
  then show ?thesis unfolding p [symmetric] by blast
qed

theorem title_palette_cycle_witness:
  "(0::int) \<le> 8 \<and> title_color 8 = 0xFF0000
   \<and> (\<exists>s'. iteration env_ok (init_state\<lparr>count := 7\<rparr>) = Running s' \<and> count s' = 8
           \<and> tb_color (labels s' Title) = 0xFF0000)"
  using title_palette_cycle [of 8 env_ok "init_state\<lparr>count := 7\<rparr>"]
  by (simp add: env_ok_def)

text \<open>
  Claim C3. In the extended variant, for every non-negative counter value the status label
  gets the ACTIVE text and colour exactly when \<open>count mod 4 < 2\<close>, and the READY text and
  colour otherwise.
\<close>

theorem status_blink_phase:
  assumes "0 \<le> c"
  shows "(blink c = (''Status: ACTIVE'', 0x00FF00) \<longleftrightarrow> c mod 4 < 2)
       \<and> (blink c = (''Status: READY'', 0x0088FF) \<longleftrightarrow> \<not> c mod 4 < 2)
       \<and> (fault e = None \<and> count s + 1 = c \<longrightarrow>
            (\<exists>s'. iteration e s = Running s' \<and> count s' = c
                  \<and> (tb_text (labels s' Status), tb_color (labels s' Status)) = blink c))"
proof -
  have "iteration e s = Running (run_stmts (try_body e) s)
          \<and> count (run_stmts (try_body e) s) = c
          \<and> (tb_text (labels (run_stmts (try_body e) s) Status),
              tb_color (labels (run_stmts (try_body e) s) Status)) = blink c"
    if "fault e = None" "count s + 1 = c"
    using that by (simp add: iteration_no_fault count_try_whole status_after_try)
  moreover have "(blink c = (''Status: ACTIVE'', 0x00FF00) \<longleftrightarrow> c mod 4 < 2)"
    "(blink c = (''Status: READY'', 0x0088FF) \<longleftrightarrow> \<not> c mod 4 < 2)"
    by (simp_all add: blink_def)
  ultimately show ?thesis by blast
qed

theorem status_blink_phase_witness:
  "(0::int) \<le> 6 \<and> blink 6 = (''Status: READY'', 0x0088FF)
   \<and> (\<exists>s'. iteration env_ok (init_state\<lparr>count := 5\<rparr>) = Running s' \<and> count s' = 6
           \<and> (tb_text (labels s' Status), tb_color (labels s' Status)) = (''Status: READY'', 0x0088FF))"
proof -
  have f: "fault env_ok = None \<and> count (init_state\<lparr>count := 5\<rparr>) + 1 = 6"
    by (simp add: env_ok_def)
  have m: "\<not> (6::int) mod 4 < 2" by simp
  show ?thesis using status_blink_phase [of 6 env_ok "init_state\<lparr>count := 5\<rparr>"] f m by auto
qed

subsection \<open>The progress bar\<close>




subsection \<open>The formatted labels\<close>

text \<open>
  Claim C5. In the extended variant, for every non-negative number \<open>e\<close> of elapsed whole
  seconds the time label shows the minutes \<open>e div 60\<close> and the seconds \<open>e mod 60\<close>, each
  padded with zeros to two digits and separated by a colon. The seconds always have two
  digits. The minutes are written in decimal, digit by digit, with two digits up to 99
  and with exactly as many as the number has beyond (\<open>6000\<close> gives \<open>100:00\<close>). \<open>125\<close> gives
  \<open>02:05\<close>, \<open>59\<close> gives \<open>00:59\<close> and \<open>0\<close> gives \<open>00:00\<close>.
\<close>

theorem time_display_mmss:
  assumes "0 \<le> e"
  shows "time_text e = ''Time: '' @ fmt_02d (e div 60) @
           [CHR '':'', digit_char (nat (e mod 60) div 10), digit_char (nat (e mod 60) mod 10)]
       \<and> 2 \<le> length (fmt_02d (e div 60))
       \<and> nat (e div 60) < 10 ^ length (fmt_02d (e div 60))
       \<and> (2 < length (fmt_02d (e div 60)) \<longrightarrow>
            10 ^ (length (fmt_02d (e div 60)) - 1) \<le> nat (e div 60))
       \<and> (\<forall>i<length (fmt_02d (e div 60)).
            fmt_02d (e div 60) ! (length (fmt_02d (e div 60)) - 1 - i) =
              digit_char (nat (e div 60) div 10 ^ i mod 10))
       \<and> (e < 6000 \<longrightarrow>
            fmt_02d (e div 60) = [digit_char (nat (e div 60) div 10), digit_char (nat (e div 60) mod 10)])
       \<and> mmss 125 = ''02:05'' \<and> mmss 59 = ''00:59'' \<and> mmss 0 = ''00:00''
       \<and> time_text 6000 = ''Time: 100:00''
       \<and> (fault env = None \<and> ticks_diff_ms env div 1000 = e \<longrightarrow>
            tb_text (labels (state_of (iteration env s)) TimeDisplay) = time_text e)"
proof -
  have sec: "fmt_02d (e mod 60) = [digit_char (nat (e mod 60) div 10), digit_char (nat (e mod 60) mod 10)]"
    by (rule fmt_02d_digits) simp_all
  have m: "0 \<le> e div 60" using assms by simp
  have all: "2 \<le> length (fmt_02d (e div 60)) \<and> nat (e div 60) < 10 ^ length (fmt_02d (e div 60))
       \<and> (2 < length (fmt_02d (e div 60)) \<longrightarrow>
            10 ^ (length (fmt_02d (e div 60)) - 1) \<le> nat (e div 60))
       \<and> (\<forall>i<length (fmt_02d (e div 60)).
            fmt_02d (e div 60) ! (length (fmt_02d (e div 60)) - 1 - i) =
              digit_char (nat (e div 60) div 10 ^ i mod 10))"
    using m by (rule fmt_02d_digits_all)
  have m2: "e < 6000 \<longrightarrow>
      fmt_02d (e div 60) = [digit_char (nat (e div 60) div 10), digit_char (nat (e div 60) mod 10)]"
    using m by (auto intro!: fmt_02d_digits)
  have ex: "mmss 125 = ''02:05''" "mmss 59 = ''00:59''" "mmss 0 = ''00:00''"
    by (simp_all add: mmss_def fmt_02d_digits digit_char_def)
  have ex2: "time_text 6000 = ''Time: 100:00''"
    by (simp add: time_text_def mmss_def fmt_02d_def zfill_def dec_digits.simps digit_char_def)
  have it: "fault env = None \<and> ticks_diff_ms env div 1000 = e \<longrightarrow>
      tb_text (labels (state_of (iteration env s)) TimeDisplay) = time_text e"
    by (auto simp add: iteration_no_fault time_after_try)
  have t: "time_text e = ''Time: '' @ fmt_02d (e div 60) @
           [CHR '':'', digit_char (nat (e mod 60) div 10), digit_char (nat (e mod 60) mod 10)]"
    using sec by (simp add: time_text_def mmss_def)
  show ?thesis using t all m2 ex ex2 it by blast
qed

theorem time_display_mmss_witness:
  "(0::int) \<le> 754 \<and> time_text 754 = ''Time: 12:34''
   \<and> time_text 6000 = ''Time: 100:00''
   \<and> length (fmt_02d (7384 div 60)) = 3 \<and> fmt_02d (7384 div 60) ! 0 = CHR ''1''
   \<and> fmt_02d (7384 div 60) ! 1 = CHR ''2'' \<and> fmt_02d (7384 div 60) ! 2 = CHR ''3''
   \<and> tb_text (labels (state_of (iteration env_ok init_state)) TimeDisplay) = ''Time: 02:05''"
proof -
  have f: "fault env_ok = None \<and> ticks_diff_ms env_ok div 1000 = 125" by (simp add: env_ok_def)
  have h: "(0::int) \<le> 125" by simp
  have g: "(0::int) \<le> 7384" by simp
  have k: "(0::int) \<le> 754" by simp
  have a: "time_text 754 = ''Time: 12:34''"
    using time_display_mmss [OF k, of env_ok init_state] by (simp add: digit_char_def)
  have b: "tb_text (labels (state_of (iteration env_ok init_state)) TimeDisplay) = time_text 125"
    using time_display_mmss [OF h, of env_ok init_state] f by blast
  have "mmss 125 = ''02:05''"
    using time_display_mmss [OF h, of env_ok init_state] by blast
  then have c: "time_text 125 = ''Time: 02:05''" by (simp add: time_text_def)
  have d: "time_text 6000 = ''Time: 100:00''"
    using time_display_mmss [OF h, of env_ok init_state] by blast
  define ms where "ms = fmt_02d (7384 div 60)"
  have l: "2 \<le> length ms" "nat (7384 div 60) < 10 ^ length ms"
    "2 < length ms \<longrightarrow> 10 ^ (length ms - 1) \<le> nat (7384 div 60)"
    and n: "\<forall>i<length ms. ms ! (length ms - 1 - i) = digit_char (nat (7384 div 60) div 10 ^ i mod 10)"
    using time_display_mmss [OF g, of env_ok init_state] unfolding ms_def by blast+
  have l3: "length ms = 3"
  proof -
    have ne: "length ms \<noteq> 2"
    proof
      assume "length ms = 2"
      then have "nat (7384 div 60) < 10 ^ 2" using l(2) by simp
      then show False by simp
    qed
    then have gt: "2 < length ms" using l(1) by linarith
    then have le: "10 ^ (length ms - 1) \<le> (123::nat)" using l(3) by simp
    have "\<not> 3 \<le> length ms - 1"
    proof
      assume "3 \<le> length ms - 1"
      then have "(10::nat) ^ 3 \<le> 10 ^ (length ms - 1)" by (intro power_increasing) simp_all
      then show False using le by simp
    qed
    then show ?thesis using gt by linarith
  qed
  have "ms ! 0 = CHR ''1''" "ms ! 1 = CHR ''2''" "ms ! 2 = CHR ''3''"
    using n [rule_format, of 2] n [rule_format, of 1] n [rule_format, of 0] l3
    by (simp_all add: digit_char_def)
  then show ?thesis using a b c d l3 unfolding ms_def by simp
qed

text \<open>
  Claim C6. In the extended variant the colour label shows the background colour as six
  upper-case hexadecimal digits, padded with zeros, after \<open>RGB: 0x\<close>; the colour
  \<open>0x00FF88\<close> gives \<open>RGB: 0x00FF88\<close>.
\<close>

theorem color_info_hex:
  "color_text 0x00FF88 = ''RGB: 0x00FF88''
   \<and> (c < 16 ^ 6 \<longrightarrow> color_text c = ''RGB: 0x'' @
         [digit_char (c div 16 ^ 5), digit_char (c div 16 ^ 4 mod 16), digit_char (c div 16 ^ 3 mod 16),
          digit_char (c div 16 ^ 2 mod 16), digit_char (c div 16 mod 16), digit_char (c mod 16)])
   \<and> (fault e = None \<longrightarrow>
         tb_text (labels (state_of (iteration e s)) ColorInfo) =
           color_text (random_color (rand_r e) (rand_g e) (rand_b e)))"
proof -
  have a: "color_text 0x00FF88 = ''RGB: 0x00FF88''"
    by (simp add: color_text_def fmt_06X_digits digit_char_def)
  have b: "c < 16 ^ 6 \<longrightarrow> color_text c = ''RGB: 0x'' @
         [digit_char (c div 16 ^ 5), digit_char (c div 16 ^ 4 mod 16), digit_char (c div 16 ^ 3 mod 16),
          digit_char (c div 16 ^ 2 mod 16), digit_char (c div 16 mod 16), digit_char (c mod 16)]"
    by (auto simp add: color_text_def fmt_06X_digits)
  have c: "fault e = None \<longrightarrow>
         tb_text (labels (state_of (iteration e s)) ColorInfo) =
           color_text (random_color (rand_r e) (rand_g e) (rand_b e))"
    by (auto simp add: iteration_no_fault color_info_after_try)
  show ?thesis using a b c by blast
qed

theorem color_info_hex_witness:
  "color_text 0xAD49 = ''RGB: 0x00AD49''
   \<and> tb_text (labels (state_of (iteration (env_ok\<lparr>rand_r := 21, rand_g := 42, rand_b := 9\<rparr>) init_state)) ColorInfo)
       = ''RGB: 0x00AD49''"
proof -
  have v: "random_color 21 42 9 = 0xAD49" by (simp add: random_color_def)
  have a: "color_text 0xAD49 = ''RGB: 0x00AD49''"
    using color_info_hex [of "0xAD49" env_ok init_state] by (simp add: digit_char_def)
  have "tb_text (labels (state_of (iteration (env_ok\<lparr>rand_r := 21, rand_g := 42, rand_b := 9\<rparr>) init_state)) ColorInfo)
       = color_text (random_color 21 42 9)"
    using color_info_hex [of 0 "env_ok\<lparr>rand_r := 21, rand_g := 42, rand_b := 9\<rparr>" init_state]
    by (simp add: env_ok_def)
  then show ?thesis using a v by simp
qed

subsection \<open>The buttons\<close>

text \<open>
  Claim C8. In every pass of the extended variant the buttons are asked in the order A,
  B, C. When one is down, the subtitle gets the text and the colour of the first one that
  is down and a debounce sleep of 0.1 s follows, before the 0.5 s sleep that ends the pass;
  when none is down the subtitle goes back to \<open>Random Color Background\<close> in \<open>0xFFFF00\<close>
  and only the 0.5 s sleep follows.
\<close>

theorem button_priority:
  assumes "fault e = None"
  shows "\<exists>s'. iteration e s = Running s'
     \<and> (tb_text (labels s' Subtitle), tb_color (labels s' Subtitle)) =
         (if btnA e then (''Button A Pressed!'', 0xFF0000)
          else if btnB e then (''Button B Pressed!'', 0x00FF00)
          else if btnC e then (''Button C Pressed!'', 0x0000FF)
          else (''Random Color Background'', 0xFFFF00))
     \<and> trace s' = trace s
           @ [ScreenColor (random_color (rand_r e) (rand_g e) (rand_b e)),
              Rect 10 200 300 20 0x333333 0x333333,
              Rect 12 202 (progress (fpu e) (count s + 1)) 16 0x00FF88 0x00FF88]
           @ (if btnA e \<or> btnB e \<or> btnC e then [Sleep 100] else [])
           @ [Sleep 500]"
proof -
  have "iteration e s = Running (run_stmts (try_body e) s)"
    using assms by (rule iteration_no_fault)
  moreover have "(tb_text (labels (run_stmts (try_body e) s) Subtitle),
                  tb_color (labels (run_stmts (try_body e) s) Subtitle)) =
         (if btnA e then (''Button A Pressed!'', 0xFF0000)
          else if btnB e then (''Button B Pressed!'', 0x00FF00)
          else if btnC e then (''Button C Pressed!'', 0x0000FF)
          else (''Random Color Background'', 0xFFFF00))"
    by (simp add: subtitle_after_try)
  ultimately show ?thesis using trace_after_try [of e s] by blast
qed

theorem button_priority_witness:
  "fault env_ok = None
   \<and> (\<exists>s'. iteration env_ok init_state = Running s'
         \<and> (tb_text (labels s' Subtitle), tb_color (labels s' Subtitle)) = (''Button B Pressed!'', 0x00FF00)
         \<and> trace s' = trace init_state
              @ [ScreenColor (random_color 1 2 3),
                 Rect 10 200 300 20 0x333333 0x333333,
                 Rect 12 202 (progress binary32 (count init_state + 1)) 16 0x00FF88 0x00FF88]
              @ [Sleep 100] @ [Sleep 500])"
proof -
  have f: "fault env_ok = None" by (simp add: env_ok_def)
  show ?thesis using button_priority [OF f, of init_state] f by (simp add: env_ok_def)
qed

subsection \<open>The counter\<close>

text \<open>
  Claim C9. In both variants the counter starts at 0, goes up by exactly one in every pass
  that reaches the increment (also when the pass later ends in an exception) and stays as
  it is in a pass that is left before the increment; it never goes down along a run, and
  after \<open>n\<close> passes without a fault it is \<open>n\<close>.
\<close>

theorem counter_monotone:
  "count init_state = 0 \<and> count simple_init_state = 0
   \<and> count (state_of (iteration e s)) =
         count s + (case fault e of None \<Rightarrow> 1 | Some (k, x) \<Rightarrow> if 2 < k then 1 else 0)
   \<and> count (state_of (simple_iteration e' s')) =
         count s' + (case simple_fault e' of None \<Rightarrow> 1 | Some (k, x) \<Rightarrow> if 2 < k then 1 else 0)
   \<and> count s \<le> count (state_of (main_loop es s))
   \<and> count s' \<le> count (state_of (simple_main_loop es' s'))
   \<and> ((\<forall>a\<in>set es. fault a = None) \<longrightarrow> count (state_of (main es)) = int (length es))
   \<and> ((\<forall>a\<in>set es'. simple_fault a = None) \<longrightarrow> count (state_of (simple_main es')) = int (length es'))"
proof -
  have i: "count init_state = 0" "count simple_init_state = 0"
    by (simp_all add: init_state_def simple_init_state_def)
  have m: "(\<forall>a\<in>set es. fault a = None) \<longrightarrow> count (state_of (main es)) = int (length es)"
    using main_loop_fault_free [of es init_state] i by (simp add: main_def)
  have sm: "(\<forall>a\<in>set es'. simple_fault a = None) \<longrightarrow> count (state_of (simple_main es')) = int (length es')"
    using simple_main_loop_fault_free [of es' simple_init_state] i by (simp add: simple_main_def)
  show ?thesis
    using i m sm count_iteration [of e s] count_simple_iteration [of e' s']
      count_main_loop_mono [of s es] count_simple_main_loop_mono [of s' es']
    by blast
qed

theorem counter_monotone_witness:
  "count (state_of (iteration (env_ok\<lparr>fault := Some (9, Exception ''lcd'')\<rparr>) init_state)) = 1
   \<and> count (state_of (iteration (env_ok\<lparr>fault := Some (1, Exception ''lcd'')\<rparr>) init_state)) = 0
   \<and> count (state_of (simple_iteration (simple_env_ok\<lparr>simple_fault := Some (4, KeyboardInterrupt)\<rparr>) simple_init_state)) = 1
   \<and> count (state_of (main [env_ok, env_ok, env_ok])) = 3
   \<and> count (state_of (simple_main [simple_env_ok, simple_env_ok])) = 2"
proof -
  have a: "\<forall>a\<in>set [env_ok, env_ok, env_ok]. fault a = None" by (simp add: env_ok_def)
  have b: "\<forall>a\<in>set [simple_env_ok, simple_env_ok]. simple_fault a = None" by (simp add: simple_env_ok_def)
  have "count (state_of (iteration (env_ok\<lparr>fault := Some (9, Exception ''lcd'')\<rparr>) init_state)) = 1"
    "count (state_of (simple_iteration (simple_env_ok\<lparr>simple_fault := Some (4, KeyboardInterrupt)\<rparr>) simple_init_state)) = 1"
    "count (state_of (main [env_ok, env_ok, env_ok])) = 3"
    "count (state_of (simple_main [simple_env_ok, simple_env_ok])) = 2"
    using counter_monotone [of "env_ok\<lparr>fault := Some (9, Exception ''lcd'')\<rparr>" init_state
        "simple_env_ok\<lparr>simple_fault := Some (4, KeyboardInterrupt)\<rparr>" simple_init_state
        "[env_ok, env_ok, env_ok]" "[simple_env_ok, simple_env_ok]"] a b
    by simp_all
  moreover have "count (state_of (iteration (env_ok\<lparr>fault := Some (1, Exception ''lcd'')\<rparr>) init_state)) = 0"
    using counter_monotone [of "env_ok\<lparr>fault := Some (1, Exception ''lcd'')\<rparr>" init_state
        simple_env_ok simple_init_state "[]" "[]"]
    by simp
  ultimately show ?thesis by simp
qed

subsection \<open>Faults\<close>

text \<open>
  Claim C1 says that in either variant every fault other than the user interrupt is caught
  and the loop goes on. The simple variant has the single clause
  \<^verbatim>\<open>except KeyboardInterrupt: break\<close>: an \<^verbatim>\<open>Exception\<close> raised by
  \<^verbatim>\<open>counter.setText\<close> in its first pass leaves the loop, and the second pass never
  runs. In the extended variant an exception raised inside the \<^verbatim>\<open>except\<close> clause
  itself, and a \<^verbatim>\<open>SystemExit\<close>, leave the loop as well.
\<close>

theorem fault_containment_counterexample:
  "simple_main [simple_env_ok\<lparr>simple_fault := Some (3, Exception ''boom'')\<rparr>, simple_env_ok]
     = Crashed (Exception ''boom'')
         \<lparr>labels = simple_init_ui, count = 1,
          trace = [Print ''Simple Flash Sample Started!'', ScreenColor 7]\<rparr>
   \<and> \<not> is_running (main [env_ok\<lparr>fault := Some (5, Exception ''boom''),
                                    handler_fault := Some (1, Exception ''again'')\<rparr>, env_ok])
   \<and> \<not> is_running (main [env_ok\<lparr>fault := Some (5, SystemExit)\<rparr>, env_ok])"
proof -
  have a: "simple_main [simple_env_ok\<lparr>simple_fault := Some (3, Exception ''boom'')\<rparr>, simple_env_ok]
     = Crashed (Exception ''boom'')
         \<lparr>labels = simple_init_ui, count = 1,
          trace = [Print ''Simple Flash Sample Started!'', ScreenColor 7]\<rparr>"
    by (simp add: simple_main_def simple_iteration_def run_try_def simple_try_body_def run_stmts_simps
        simple_init_state_def simple_env_ok_def emit_def incr_count_def random_color_simple_def)
  have "\<not> is_running (iteration (env_ok\<lparr>fault := Some (5, Exception ''boom''),
                                    handler_fault := Some (1, Exception ''again'')\<rparr>) init_state)"
    by (rule iteration_handler_fault [where k = 5 and msg = "''boom''" and j = 1 and y = "Exception ''again''"])
       (simp_all add: length_try_body_eq env_ok_def)
  then have b: "\<not> is_running (main [env_ok\<lparr>fault := Some (5, Exception ''boom''),
                                    handler_fault := Some (1, Exception ''again'')\<rparr>, env_ok])"
    unfolding main_def by (rule main_loop_stops)
  have "\<not> is_running (iteration (env_ok\<lparr>fault := Some (5, SystemExit)\<rparr>) init_state)"
    by (rule iteration_system_exit [where k = 5]) (simp_all add: length_try_body_eq env_ok_def)
  then have c: "\<not> is_running (main [env_ok\<lparr>fault := Some (5, SystemExit)\<rparr>, env_ok])"
    unfolding main_def by (rule main_loop_stops)
  show ?thesis using a b c by blast
qed

lemma simple_iteration_uncaught:
  assumes "simple_fault e = Some (k, x)" and "k < length (simple_try_body e)" and "x \<noteq> KeyboardInterrupt"
  shows "simple_iteration e s = Crashed x (run_stmts (take k (simple_try_body e)) s)"
  using assms by (cases x) (simp_all add: simple_iteration_def run_try_def)

lemma simple_main_loop_stops:
  "\<not> is_running (simple_iteration e s) \<Longrightarrow> \<not> is_running (simple_main_loop (e # es) s)"
  by (cases "simple_iteration e s") simp_all

text \<open>
  Claim C1, amended. In the extended variant, every \<^verbatim>\<open>Exception\<close> raised in the
  \<^verbatim>\<open>try\<close> body of a pass is caught, provided the \<^verbatim>\<open>except\<close> clause then runs to
  its end: the message is printed, the status label is set to \<open>Status: ERROR\<close> in
  \<open>0xFF0000\<close>, the script sleeps for one second, and the next pass runs; a run in which
  all faults are of this kind never ends. In the simple variant every exception other
  than the user interrupt leaves the loop.
\<close>

theorem fault_containment_by_variant:
  assumes "fault e = Some (k, Exception msg)" and "k < length (try_body e)" and "handler_fault e = None"
    and "\<forall>a\<in>set es. handler_fault a = None \<and> (fault a = None \<or> (\<exists>j m. fault a = Some (j, Exception m)))"
    and "simple_fault e' = Some (k', x)" and "k' < length (simple_try_body e')" and "x \<noteq> KeyboardInterrupt"
  shows "(\<exists>s'. iteration e s = Running s'
           \<and> tb_text (labels s' Status) = ''Status: ERROR'' \<and> tb_color (labels s' Status) = 0xFF0000
           \<and> (\<exists>tr. trace s' = tr @ [Print (''Error occurred: '' @ msg), Sleep 1000])
           \<and> main_loop (e # es) s = main_loop es s'
           \<and> is_running (main_loop (e # es) s))
       \<and> (\<exists>t'. simple_iteration e' t = Crashed x t')
       \<and> \<not> is_running (simple_main_loop (e' # es') t)"
proof -
  define s' where "s' = run_stmts (except_exception msg) (run_stmts (take k (try_body e)) s)"
  have it: "iteration e s = Running s'"
    unfolding s'_def using assms(1-3) by (rule iteration_caught)
  have st: "tb_text (labels s' Status) = ''Status: ERROR''" "tb_color (labels s' Status) = 0xFF0000"
    unfolding s'_def by (simp_all add: handler_after)
  have tr: "\<exists>tr. trace s' = tr @ [Print (''Error occurred: '' @ msg), Sleep 1000]"
    unfolding s'_def by (simp add: handler_after)
  have nx: "main_loop (e # es) s = main_loop es s'" using it by simp
  have "is_running (main_loop es s')" using assms(4) by (rule main_loop_contained)
  then have rn: "is_running (main_loop (e # es) s)" using nx by simp
  have cr: "simple_iteration e' t = Crashed x (run_stmts (take k' (simple_try_body e')) t)"
    using assms(5-7) by (rule simple_iteration_uncaught)
  then have "\<not> is_running (simple_iteration e' t)" by simp
  then have sp: "\<not> is_running (simple_main_loop (e' # es') t)" by (rule simple_main_loop_stops)
  show ?thesis using it st tr nx rn cr sp by blast
qed

theorem fault_containment_by_variant_witness:
  "(\<exists>s'. iteration (env_ok\<lparr>fault := Some (5, Exception ''boom'')\<rparr>) init_state = Running s'
           \<and> tb_text (labels s' Status) = ''Status: ERROR'' \<and> tb_color (labels s' Status) = 0xFF0000
           \<and> (\<exists>tr. trace s' = tr @ [Print (''Error occurred: '' @ ''boom''), Sleep 1000])
           \<and> main_loop (env_ok\<lparr>fault := Some (5, Exception ''boom'')\<rparr> # [env_ok]) init_state = main_loop [env_ok] s'
           \<and> is_running (main_loop (env_ok\<lparr>fault := Some (5, Exception ''boom'')\<rparr> # [env_ok]) init_state))
   \<and> (\<exists>t'. simple_iteration (simple_env_ok\<lparr>simple_fault := Some (3, Exception ''boom'')\<rparr>) simple_init_state
              = Crashed (Exception ''boom'') t')
   \<and> \<not> is_running (simple_main_loop (simple_env_ok\<lparr>simple_fault := Some (3, Exception ''boom'')\<rparr> # [simple_env_ok])
                         simple_init_state)"
proof -
  have h1: "fault (env_ok\<lparr>fault := Some (5, Exception ''boom'')\<rparr>) = Some (5, Exception ''boom'')"
    by simp
  have h2: "5 < length (try_body (env_ok\<lparr>fault := Some (5, Exception ''boom'')\<rparr>))"
    by (simp add: length_try_body_eq)
  have h3: "handler_fault (env_ok\<lparr>fault := Some (5, Exception ''boom'')\<rparr>) = None"
    by (simp add: env_ok_def)
  have h4: "\<forall>a\<in>set [env_ok]. handler_fault a = None \<and> (fault a = None \<or> (\<exists>j m. fault a = Some (j, Exception m)))"
    by (simp add: env_ok_def)
  have h5: "simple_fault (simple_env_ok\<lparr>simple_fault := Some (3, Exception ''boom'')\<rparr>) = Some (3, Exception ''boom'')"
    by simp
  have h6: "3 < length (simple_try_body (simple_env_ok\<lparr>simple_fault := Some (3, Exception ''boom'')\<rparr>))"
    by (simp add: length_simple_try_body)
  have h7: "Exception ''boom'' \<noteq> KeyboardInterrupt" by simp
  show ?thesis by (rule fault_containment_by_variant [OF h1 h2 h3 h4 h5 h6 h7])
qed

end
